theory Spec2Isabelle
  imports Complex_Main
begin

section \<open>Data model of \<open>TicTacToeGame.tsx\<close>\<close>

text \<open>
  \<open>type Player = 'X' | 'O' | null\<close>: a mark or \<open>null\<close>; \<open>None\<close> is \<open>null\<close>. The marks
  \<open>'X'\<close> and \<open>'O'\<close> are \<open>PlayerX\<close> and \<open>PlayerO\<close> (\<open>O\<close> is HOL's relation composition).
\<close>

datatype mark = PlayerX | PlayerO

type_synonym Player = "mark option"

datatype GameStatus = playing | won | draw

datatype GameMode = pvp | pve

text \<open>
  The board is a JavaScript array. Its type says \<open>Player[]\<close>, but a write past the end
  extends the array and leaves holes, and a read past the end (or of a hole) gives
  \<open>undefined\<close>. A slot is therefore a hole, \<open>undefined\<close>, or a \<open>Player\<close> value.
\<close>

datatype slot = Hole | Undefined | Val Player

text \<open>
  \<open>scores: { X: number; O: number; draws: number }\<close>. The fields \<open>X\<close> and \<open>O\<close> are named
  \<open>wins_X\<close> and \<open>wins_O\<close> here. The counts start at 0 and
  only grow by 1, far below the 2^53 where a JavaScript number stops being exact, so they
  are natural numbers.
\<close>

record Scores =
  wins_X :: nat
  wins_O :: nat
  draws :: nat

record GameState =
  board :: "slot list"
  currentPlayer :: Player
  status :: GameStatus
  winner :: Player
  winningCells :: "nat list"
  scores :: Scores
  mode :: GameMode

subsection \<open>JavaScript array operations used by the component\<close>

text \<open>\<open>xs[i]\<close>: a hole and an index past the end both read as \<open>undefined\<close>.\<close>

definition js_get :: "slot list \<Rightarrow> nat \<Rightarrow> slot" where
  "js_get xs i =
     (if i < length xs then (case xs ! i of Hole \<Rightarrow> Undefined | v \<Rightarrow> v) else Undefined)"

text \<open>\<open>[...xs]\<close>: a copy in which every hole has become \<open>undefined\<close>.\<close>

definition js_spread :: "slot list \<Rightarrow> slot list" where
  "js_spread xs = map (\<lambda>v. case v of Hole \<Rightarrow> Undefined | _ \<Rightarrow> v) xs"

text \<open>\<open>xs[i] = v\<close>: in range it overwrites; past the end it extends, leaving holes.\<close>

definition js_set :: "slot list \<Rightarrow> nat \<Rightarrow> slot \<Rightarrow> slot list" where
  "js_set xs i v =
     (if i < length xs then xs[i := v] else xs @ replicate (i - length xs) Hole @ [v])"

text \<open>A value is truthy when it is the string \<open>'X'\<close> or \<open>'O'\<close>.\<close>

definition truthy :: "slot \<Rightarrow> bool" where
  "truthy v = (case v of Val (Some _) \<Rightarrow> True | _ \<Rightarrow> False)"

text \<open>\<open>xs.every(cell => cell !== null)\<close> and \<open>xs.some(cell => cell !== null)\<close>: both skip holes.\<close>

definition every_not_null :: "slot list \<Rightarrow> bool" where
  "every_not_null xs = list_all (\<lambda>cell. cell = Hole \<or> cell \<noteq> Val None) xs"

definition some_not_null :: "slot list \<Rightarrow> bool" where
  "some_not_null xs = list_ex (\<lambda>cell. cell \<noteq> Hole \<and> cell \<noteq> Val None) xs"

text \<open>
  \<open>board.map((cell, index) => cell === null ? index : null).filter(val => val !== null)\<close>:
  the indices of the \<open>null\<close> cells, in ascending order.
\<close>

definition availableMoves :: "slot list \<Rightarrow> nat list" where
  "availableMoves b = filter (\<lambda>index. b ! index = Val None) [0..<length b]"

subsection \<open>Constants\<close>

definition INITIAL_STATE :: GameState where
  "INITIAL_STATE =
     \<lparr> board = replicate 9 (Val None),
       currentPlayer = Some PlayerX,
       status = playing,
       winner = None,
       winningCells = [],
       scores = \<lparr> wins_X = 0, wins_O = 0, draws = 0 \<rparr>,
       mode = pve \<rparr>"

text \<open>Each combination is destructured as \<open>[a, b, c]\<close>, so it is a triple here.\<close>

definition WINNING_COMBINATIONS :: "(nat \<times> nat \<times> nat) list" where
  "WINNING_COMBINATIONS =
     [(0, 1, 2), (3, 4, 5), (6, 7, 8),
      (0, 3, 6), (1, 4, 7), (2, 5, 8),
      (0, 4, 8), (2, 4, 6)]"

section \<open>Win detection\<close>

text \<open>
  \<open>checkWinner\<close> scans the combinations in order and returns at the first one whose three
  cells hold the same truthy value; the result is the pair \<open>(winner, winningCells)\<close>.
\<close>

definition line_won :: "slot list \<Rightarrow> nat \<times> nat \<times> nat \<Rightarrow> bool" where
  "line_won b t =
     (case t of (a, b', c) \<Rightarrow>
        truthy (js_get b a) \<and> js_get b a = js_get b b' \<and> js_get b a = js_get b c)"

definition slot_player :: "slot \<Rightarrow> Player" where
  "slot_player v = (case v of Val p \<Rightarrow> p | _ \<Rightarrow> None)"

fun checkWinnerLoop :: "slot list \<Rightarrow> (nat \<times> nat \<times> nat) list \<Rightarrow> Player \<times> nat list" where
  "checkWinnerLoop b [] = (None, [])"
| "checkWinnerLoop b ((a, b', c) # rest) =
     (if line_won b (a, b', c) then (slot_player (js_get b a), [a, b', c])
      else checkWinnerLoop b rest)"

definition checkWinner :: "slot list \<Rightarrow> Player \<times> nat list" where
  "checkWinner b = checkWinnerLoop b WINNING_COMBINATIONS"

section \<open>Applying a move\<close>

text \<open>\<open>newScores[winner]++\<close>\<close>

definition incrementScore :: "mark \<Rightarrow> Scores \<Rightarrow> Scores" where
  "incrementScore w sc =
     (case w of PlayerX \<Rightarrow> sc\<lparr>wins_X := wins_X sc + 1\<rparr> | PlayerO \<Rightarrow> sc\<lparr>wins_O := wins_O sc + 1\<rparr>)"

text \<open>
  \<open>const copy = [...board]; copy[index] = player\<close>: the \<open>newBoard\<close> of \<open>makeMove\<close> and the
  \<open>testBoard\<close> of \<open>getBestMove\<close>.
\<close>

definition boardWith :: "slot list \<Rightarrow> nat \<Rightarrow> Player \<Rightarrow> slot list" where
  "boardWith b index player = js_set (js_spread b) index (Val player)"

text \<open>
  The updater that \<open>makeMove\<close> passes to \<open>setGameState\<close>. The toast is presentation and
  is left out.
\<close>

definition makeMove :: "nat \<Rightarrow> Player \<Rightarrow> GameState \<Rightarrow> GameState" where
  "makeMove index player prev =
     (if truthy (js_get (board prev) index) \<or> status prev \<noteq> playing then prev
      else
        let newBoard = boardWith (board prev) index player in
        (case checkWinner newBoard of
           (Some w, cells) \<Rightarrow>
             prev\<lparr>board := newBoard, status := won, winner := Some w,
                  winningCells := cells, scores := incrementScore w (scores prev)\<rparr>
         | (None, cells) \<Rightarrow>
             if every_not_null newBoard then
               prev\<lparr>board := newBoard, status := draw,
                    scores := (scores prev)\<lparr>draws := draws (scores prev) + 1\<rparr>\<rparr>
             else
               prev\<lparr>board := newBoard,
                    currentPlayer := (if player = Some PlayerX then Some PlayerO else Some PlayerX)\<rparr>))"

section \<open>Random choice\<close>

text \<open>
  \<open>Math.random()\<close> returns a number that is at least 0 and less than 1. Its value is the
  parameter \<open>u\<close> of every function that draws; the double is taken as the real number it
  denotes, and the product below as the exact product.
\<close>

typedef math_random = "{r :: real. 0 \<le> r \<and> r < 1}"
  by (rule exI[of _ 0]) simp

text \<open>\<open>Math.floor(Math.random() * n)\<close>\<close>

definition randomIndex :: "math_random \<Rightarrow> nat \<Rightarrow> nat" where
  "randomIndex u n = nat \<lfloor>Rep_math_random u * real n\<rfloor>"

section \<open>The AI's move\<close>

text \<open>
  \<open>getBestMove\<close>. Each \<open>for\<close> loop returns the first available move that passes its test,
  which is \<open>find\<close>. The last line reads \<open>availableMoves[0]\<close> of an empty array when no cell
  is free, which is \<open>undefined\<close>: the result is \<open>None\<close> then.
\<close>

definition winsWith :: "slot list \<Rightarrow> mark \<Rightarrow> nat \<Rightarrow> bool" where
  "winsWith b p move = (fst (checkWinner (boardWith b move (Some p))) = Some p)"

definition emptyCorners :: "slot list \<Rightarrow> nat list" where
  "emptyCorners b = filter (\<lambda>i. js_get b i = Val None) [0, 2, 6, 8]"

definition getBestMove :: "math_random \<Rightarrow> slot list \<Rightarrow> nat option" where
  "getBestMove u b =
     (let moves = availableMoves b in
      case find (winsWith b PlayerO) moves of
        Some move \<Rightarrow> Some move
      | None \<Rightarrow>
         (case find (winsWith b PlayerX) moves of
            Some move \<Rightarrow> Some move
          | None \<Rightarrow>
              if js_get b 4 = Val None then Some 4
              else
                let corners = emptyCorners b in
                if length corners > 0 then Some (corners ! randomIndex u (length corners))
                else if moves = [] then None
                else Some (moves ! randomIndex u (length moves))))"

section \<open>Component state, controller actions and the mode buttons\<close>

text \<open>
  The component holds three pieces of state: \<open>useState(INITIAL_STATE)\<close>, \<open>useState(10)\<close>
  and \<open>useState(true)\<close>.
\<close>

record Engine =
  gameState :: GameState
  timeLeft :: int
  isTimerActive :: bool

definition initialEngine :: Engine where
  "initialEngine = \<lparr> gameState = INITIAL_STATE, timeLeft = 10, isTimerActive = True \<rparr>"

text \<open>The three updaters given to \<open>setGameState\<close> by the controller actions.\<close>

definition resetGameState :: "GameState \<Rightarrow> GameState" where
  "resetGameState prev = INITIAL_STATE\<lparr>scores := scores prev, mode := mode prev\<rparr>"

definition resetScoresState :: "GameState \<Rightarrow> GameState" where
  "resetScoresState prev = INITIAL_STATE\<lparr>mode := mode prev\<rparr>"

definition changeGameModeState :: "GameMode \<Rightarrow> GameState \<Rightarrow> GameState" where
  "changeGameModeState m prev = INITIAL_STATE\<lparr>scores := scores prev, mode := m\<rparr>"

definition resetGame :: "Engine \<Rightarrow> Engine" where
  "resetGame e =
     e\<lparr>gameState := resetGameState (gameState e), timeLeft := 10, isTimerActive := True\<rparr>"

definition resetScores :: "Engine \<Rightarrow> Engine" where
  "resetScores e =
     e\<lparr>gameState := resetScoresState (gameState e), timeLeft := 10, isTimerActive := True\<rparr>"

definition changeGameMode :: "GameMode \<Rightarrow> Engine \<Rightarrow> Engine" where
  "changeGameMode m e =
     e\<lparr>gameState := changeGameModeState m (gameState e), timeLeft := 10,
       isTimerActive := True\<rparr>"

text \<open>
  Both mode buttons carry
  \<open>disabled={gameState.status === 'playing' && gameState.board.some(cell => cell !== null)}\<close>;
  a disabled button does not call its \<open>onClick\<close>.
\<close>

definition modeButtonDisabled :: "GameState \<Rightarrow> bool" where
  "modeButtonDisabled g = (status g = playing \<and> some_not_null (board g))"

definition clickModeButton :: "GameMode \<Rightarrow> Engine \<Rightarrow> Engine" where
  "clickModeButton m e = (if modeButtonDisabled (gameState e) then e else changeGameMode m e)"

text \<open>
  A cell button is rendered for every element of the board (\<open>map\<close> skips holes), with
  \<open>disabled={disabled || value !== null}\<close> where \<open>disabled\<close> is
  \<open>status !== 'playing' || (mode === 'pve' && currentPlayer !== 'X')\<close>; its \<open>onClick\<close> is
  \<open>makeMove(index, gameState.currentPlayer)\<close>.
\<close>

definition cellDisabled :: "GameState \<Rightarrow> nat \<Rightarrow> bool" where
  "cellDisabled g index =
     (status g \<noteq> playing \<or> (mode g = pve \<and> currentPlayer g \<noteq> Some PlayerX)
      \<or> board g ! index \<noteq> Val None)"

definition clickCell :: "nat \<Rightarrow> Engine \<Rightarrow> Engine" where
  "clickCell index e =
     (let g = gameState e in
      if index < length (board g) \<and> board g ! index \<noteq> Hole \<and> \<not> cellDisabled g index
      then e\<lparr>gameState := makeMove index (currentPlayer g) g\<rparr>
      else e)"

section \<open>Turn timer\<close>

text \<open>
  What the interval callback does to the game state when the time is up
  (\<open>prev <= 1\<close>): the calls of \<open>makeMove\<close> in its two branches.
\<close>

definition timeUp :: "math_random \<Rightarrow> GameState \<Rightarrow> GameState" where
  "timeUp u g =
     (if mode g = pve \<and> currentPlayer g = Some PlayerX then
        (let moves = availableMoves (board g) in
         if length moves > 0 then
           (let randomMove = moves ! randomIndex u (length moves)
            in makeMove randomMove (Some PlayerO) g)
         else g)
      else if mode g = pvp then
        (let moves = availableMoves (board g) in
         if length moves > 0 then
           (let nextPlayer = (if currentPlayer g = Some PlayerX then PlayerO else PlayerX);
                randomMove = moves ! randomIndex u (length moves)
            in makeMove randomMove (Some nextPlayer) g)
         else g)
      else g)"

text \<open>
  One firing of the interval. The interval exists only while \<open>isTimerActive\<close> holds and the
  status is playing (the effect returns early otherwise). The two other effects of the
  component write \<open>timeLeft\<close> and \<open>isTimerActive\<close> only (the timer is paused while the AI
  thinks and restarted at 10 when the turn changes); they never touch the game state.
\<close>

definition tick :: "math_random \<Rightarrow> Engine \<Rightarrow> Engine" where
  "tick u e =
     (if \<not> isTimerActive e \<or> status (gameState e) \<noteq> playing then e
      else if timeLeft e \<le> 1 then e\<lparr>gameState := timeUp u (gameState e), timeLeft := 10\<rparr>
      else e\<lparr>timeLeft := timeLeft e - 1\<rparr>)"

text \<open>
  The callback of the AI's \<open>setTimeout\<close>. The timeout is pending only while the mode is
  \<open>pve\<close>, the current player is O and the status is playing. When \<open>getBestMove\<close> returns
  \<open>undefined\<close> (no free cell) the call \<open>makeMove(undefined, 'O')\<close> is outside this model and
  the result is \<open>None\<close>; \<open>aiTimeout_defined\<close> below shows that this does not happen in a
  state the game can reach.
\<close>

definition aiTimeout :: "math_random \<Rightarrow> Engine \<Rightarrow> Engine option" where
  "aiTimeout u e =
     (let g = gameState e in
      if mode g = pve \<and> currentPlayer g = Some PlayerO \<and> status g = playing then
        (case getBestMove u (board g) of
           None \<Rightarrow> None
         | Some bestMove \<Rightarrow>
             Some (e\<lparr>gameState := makeMove bestMove (Some PlayerO) g, timeLeft := 10,
                     isTimerActive := True\<rparr>))
      else Some e)"

section \<open>Notions used in the statements\<close>

text \<open>A complete line of one mark: some winning combination whose three cells hold it.\<close>

definition has_triple :: "mark \<Rightarrow> slot list \<Rightarrow> bool" where
  "has_triple m b =
     list_ex (\<lambda>(a, b', c). js_get b a = Val (Some m) \<and> js_get b b' = Val (Some m)
                          \<and> js_get b c = Val (Some m)) WINNING_COMBINATIONS"

text \<open>
  A board as the component builds it: nine cells, each \<open>null\<close>, X or O.
\<close>

definition wellFormed :: "slot list \<Rightarrow> bool" where
  "wellFormed b = (length b = 9 \<and> list_all (\<lambda>cell. cell \<noteq> Hole \<and> cell \<noteq> Undefined) b)"

text \<open>
  The game states that can arise. \<open>setGameState\<close> is called in four places only: in
  \<open>makeMove\<close> (from a cell click, from the AI's timeout and from the timer), in \<open>resetGame\<close>,
  in \<open>resetScores\<close> and in \<open>changeGameMode\<close>. The relation allows each of them with any
  argument, so it covers every sequence of clicks, AI moves, timer expiries and controller
  actions.
\<close>

inductive reachable :: "GameState \<Rightarrow> bool" where
  start: "reachable INITIAL_STATE"
| move: "reachable g \<Longrightarrow> reachable (makeMove index player g)"
| newGame: "reachable g \<Longrightarrow> reachable (resetGameState g)"
| newScores: "reachable g \<Longrightarrow> reachable (resetScoresState g)"
| newMode: "reachable g \<Longrightarrow> reachable (changeGameModeState m g)"

text \<open>The invariant of a round: a board in play has no complete line, and no board has
  complete lines of both marks.\<close>

definition round_inv :: "GameState \<Rightarrow> bool" where
  "round_inv g =
     ((status g = playing \<longrightarrow> fst (checkWinner (board g)) = None)
      \<and> \<not> (has_triple PlayerX (board g) \<and> has_triple PlayerO (board g)))"

text \<open>States and boards used as concrete instances.\<close>

definition wonEngine :: Engine where
  "wonEngine =
     initialEngine\<lparr>gameState :=
       makeMove 2 (Some PlayerX) (makeMove 8 (Some PlayerO) (makeMove 1 (Some PlayerX)
         (makeMove 4 (Some PlayerO) (makeMove 0 (Some PlayerX) INITIAL_STATE))))\<rparr>"

definition drawBoard8 :: "slot list" where
  "drawBoard8 = [Val (Some PlayerX), Val (Some PlayerO), Val (Some PlayerX),
                 Val (Some PlayerX), Val (Some PlayerO), Val (Some PlayerO),
                 Val (Some PlayerO), Val (Some PlayerX), Val None]"



text \<open>Two values of \<open>Math.random()\<close>: 0.375 and 0.75.\<close>

definition threeEighths :: math_random where
  "threeEighths = Abs_math_random (3 / 8)"


definition winNowBoard :: "slot list" where
  "winNowBoard = [Val (Some PlayerX), Val (Some PlayerX), Val None,
                  Val (Some PlayerO), Val (Some PlayerO), Val None,
                  Val None, Val None, Val None]"

definition centreTakenBoard :: "slot list" where
  "centreTakenBoard = [Val None, Val None, Val None,
                       Val None, Val (Some PlayerX), Val None,
                       Val None, Val None, Val None]"

section \<open>Auxiliary facts\<close>

subsection \<open>Array reads and writes\<close>

lemma js_get_spread: "js_get (js_spread b) i = js_get b i"
  by (auto simp: js_get_def js_spread_def split: slot.splits)

lemma length_js_spread: "length (js_spread b) = length b"
  by (simp add: js_spread_def)

lemma js_get_set_Val:
  "js_get (js_set b i (Val p)) j = (if j = i then Val p else js_get b j)"
  by (auto simp: js_get_def js_set_def nth_append split: slot.splits)

lemma js_get_boardWith:
  "js_get (boardWith b i p) j = (if j = i then Val p else js_get b j)"
  by (simp add: boardWith_def js_get_set_Val js_get_spread)

lemma length_boardWith: "i < length b \<Longrightarrow> length (boardWith b i p) = length b"
  by (simp add: boardWith_def js_set_def length_js_spread)

lemma js_get_null_iff: "js_get b i = Val None \<longleftrightarrow> i < length b \<and> b ! i = Val None"
  by (auto simp: js_get_def split: slot.splits)

lemma not_truthy_null: "js_get b i = Val None \<Longrightarrow> \<not> truthy (js_get b i)"
  by (simp add: truthy_def)

lemma every_not_null_wellFormed:
  assumes "wellFormed b"
  shows "every_not_null b \<longleftrightarrow> (\<forall>i<9. \<exists>m. b ! i = Val (Some m))"
proof
  assume e: "every_not_null b"
  show "\<forall>i<9. \<exists>m. b ! i = Val (Some m)"
  proof (intro allI impI)
    fix i :: nat assume "i < 9"
    with assms have "b ! i \<in> set b" by (simp add: wellFormed_def)
    with e assms have "b ! i \<noteq> Val None" "b ! i \<noteq> Hole" "b ! i \<noteq> Undefined"
      by (auto simp: every_not_null_def wellFormed_def list_all_iff)
    then show "\<exists>m. b ! i = Val (Some m)"
      by (cases "b ! i") auto
  qed
next
  assume a: "\<forall>i<9. \<exists>m. b ! i = Val (Some m)"
  show "every_not_null b"
    unfolding every_not_null_def list_all_iff
  proof
    fix cell assume "cell \<in> set b"
    then obtain i where "i < length b" "b ! i = cell" by (auto simp: in_set_conv_nth)
    with a assms show "cell = Hole \<or> cell \<noteq> Val None" by (auto simp: wellFormed_def)
  qed
qed

lemma js_spread_wellFormed: "wellFormed b \<Longrightarrow> js_spread b = b"
  by (auto simp: wellFormed_def js_spread_def list_all_iff map_idI split: slot.splits)

lemma boardWith_wellFormed:
  "wellFormed b \<Longrightarrow> index < 9 \<Longrightarrow> boardWith b index player = b[index := Val player]"
  by (simp add: boardWith_def js_spread_wellFormed js_set_def) (simp add: wellFormed_def)

lemma wellFormed_boardWith:
  assumes "wellFormed b" and "index < 9"
  shows "wellFormed (boardWith b index player)"
proof -
  have "set (b[index := Val player]) \<subseteq> insert (Val player) (set b)"
    by (rule set_update_subset_insert)
  with assms show ?thesis
    by (auto simp: boardWith_wellFormed) (auto simp: wellFormed_def list_all_iff)
qed

subsection \<open>The detector\<close>

lemma line_won_iff:
  "line_won b (a, b', c) \<longleftrightarrow>
     (\<exists>m. js_get b a = Val (Some m) \<and> js_get b b' = Val (Some m) \<and> js_get b c = Val (Some m))"
  by (auto simp: line_won_def truthy_def split: slot.splits option.splits)

lemma checkWinnerLoop_None:
  "fst (checkWinnerLoop b cs) = None \<longleftrightarrow> (\<forall>t \<in> set cs. \<not> line_won b t)"
  by (induction b cs rule: checkWinnerLoop.induct)
     (auto simp: line_won_iff slot_player_def)

lemma checkWinnerLoop_Some:
  "checkWinnerLoop b cs = (Some w, cells) \<Longrightarrow>
     \<exists>a b' c. (a, b', c) \<in> set cs \<and> cells = [a, b', c] \<and> js_get b a = Val (Some w)
        \<and> js_get b b' = Val (Some w) \<and> js_get b c = Val (Some w)"
  by (induction b cs rule: checkWinnerLoop.induct)
     (auto simp: line_won_iff slot_player_def split: if_splits)

lemma has_triple_iff:
  "has_triple m b \<longleftrightarrow>
     (\<exists>a b' c. (a, b', c) \<in> set WINNING_COMBINATIONS \<and>
         js_get b a = Val (Some m) \<and> js_get b b' = Val (Some m) \<and> js_get b c = Val (Some m))"
  by (auto simp: has_triple_def list_ex_iff)

lemma checkWinner_None_iff:
  "fst (checkWinner b) = None \<longleftrightarrow> (\<forall>m. \<not> has_triple m b)"
proof -
  have "fst (checkWinner b) = None \<longleftrightarrow>
          (\<forall>a b' c. (a, b', c) \<in> set WINNING_COMBINATIONS \<longrightarrow> \<not> line_won b (a, b', c))"
    unfolding checkWinner_def checkWinnerLoop_None by auto
  also have "\<dots> \<longleftrightarrow> (\<forall>m. \<not> has_triple m b)"
    unfolding has_triple_iff line_won_iff by blast
  finally show ?thesis .
qed

lemma checkWinner_Some_triple:
  "fst (checkWinner b) = Some w \<Longrightarrow> has_triple w b"
  using checkWinnerLoop_Some[of b WINNING_COMBINATIONS w "snd (checkWinner b)"]
  unfolding checkWinner_def has_triple_iff
  by (cases "checkWinnerLoop b WINNING_COMBINATIONS") auto

lemma has_triple_boardWith:
  assumes "has_triple m (boardWith b i p)" and "\<not> has_triple m b"
  shows "p = Some m"
proof -
  from assms(1) obtain a b' c where t: "(a, b', c) \<in> set WINNING_COMBINATIONS"
    and c: "js_get (boardWith b i p) a = Val (Some m)"
           "js_get (boardWith b i p) b' = Val (Some m)"
           "js_get (boardWith b i p) c = Val (Some m)"
    by (auto simp: has_triple_iff)
  show ?thesis
  proof (rule ccontr)
    assume "p \<noteq> Some m"
    with c have "js_get b a = Val (Some m)" "js_get b b' = Val (Some m)" "js_get b c = Val (Some m)"
      by (auto simp: js_get_boardWith split: if_splits)
    with t have "has_triple m b" by (auto simp: has_triple_iff)
    with assms(2) show False by simp
  qed
qed

lemma winsWith_iff:
  assumes "fst (checkWinner b) = None"
  shows "winsWith b p move \<longleftrightarrow> has_triple p (boardWith b move (Some p))"
proof
  assume "winsWith b p move"
  then show "has_triple p (boardWith b move (Some p))"
    by (simp add: winsWith_def checkWinner_Some_triple)
next
  assume t: "has_triple p (boardWith b move (Some p))"
  then have "fst (checkWinner (boardWith b move (Some p))) \<noteq> None"
    by (auto simp: checkWinner_None_iff)
  then obtain w where w: "fst (checkWinner (boardWith b move (Some p))) = Some w"
    by auto
  then have "has_triple w (boardWith b move (Some p))"
    by (rule checkWinner_Some_triple)
  moreover from assms have "\<not> has_triple w b"
    by (simp add: checkWinner_None_iff)
  ultimately have "Some p = Some w"
    by (rule has_triple_boardWith)
  with w show "winsWith b p move"
    by (simp add: winsWith_def)
qed

subsection \<open>The three outcomes of an accepted move\<close>

lemma makeMove_win:
  assumes "status prev = playing" and "\<not> truthy (js_get (board prev) index)"
    and "checkWinner (boardWith (board prev) index player) = (Some w, cells)"
  shows "makeMove index player prev =
           prev\<lparr>board := boardWith (board prev) index player, status := won,
                winner := Some w, winningCells := cells,
                scores := incrementScore w (scores prev)\<rparr>"
  using assms by (simp add: makeMove_def)

lemma makeMove_draw:
  assumes "status prev = playing" and "\<not> truthy (js_get (board prev) index)"
    and "fst (checkWinner (boardWith (board prev) index player)) = None"
    and "every_not_null (boardWith (board prev) index player)"
  shows "makeMove index player prev =
           prev\<lparr>board := boardWith (board prev) index player, status := draw,
                scores := (scores prev)\<lparr>draws := draws (scores prev) + 1\<rparr>\<rparr>"
  using assms
  by (cases "checkWinner (boardWith (board prev) index player)") (simp add: makeMove_def Let_def)

lemma makeMove_continue:
  assumes "status prev = playing" and "\<not> truthy (js_get (board prev) index)"
    and "fst (checkWinner (boardWith (board prev) index player)) = None"
    and "\<not> every_not_null (boardWith (board prev) index player)"
  shows "makeMove index player prev =
           prev\<lparr>board := boardWith (board prev) index player,
                currentPlayer := (if player = Some PlayerX then Some PlayerO else Some PlayerX)\<rparr>"
  using assms
  by (cases "checkWinner (boardWith (board prev) index player)") (simp add: makeMove_def Let_def)

subsection \<open>The round invariant\<close>

lemma no_triple_empty: "\<not> has_triple m (replicate 9 (Val None))"
  by (auto simp: has_triple_iff js_get_def)

lemma round_inv_initial: "round_inv INITIAL_STATE"
  by (simp add: round_inv_def INITIAL_STATE_def checkWinner_None_iff no_triple_empty)

lemma round_inv_reset:
  "round_inv (resetGameState g)" "round_inv (resetScoresState g)"
  "round_inv (changeGameModeState m g)"
  using round_inv_initial
  by (simp_all add: round_inv_def resetGameState_def resetScoresState_def
        changeGameModeState_def INITIAL_STATE_def)

lemma makeMove_cases:
  "makeMove index player prev = prev
   \<or> (status prev = playing \<and> board (makeMove index player prev) = boardWith (board prev) index player
       \<and> (status (makeMove index player prev) = playing
            \<longrightarrow> fst (checkWinner (boardWith (board prev) index player)) = None))"
  by (auto simp: makeMove_def Let_def split: prod.splits option.splits)

lemma round_inv_makeMove:
  assumes "round_inv g"
  shows "round_inv (makeMove index player g)"
proof -
  consider (same) "makeMove index player g = g"
    | (placed) "status g = playing"
        "board (makeMove index player g) = boardWith (board g) index player"
        "status (makeMove index player g) = playing
           \<longrightarrow> fst (checkWinner (boardWith (board g) index player)) = None"
    using makeMove_cases by blast
  then show ?thesis
  proof cases
    case same
    with assms show ?thesis by simp
  next
    case placed
    from assms placed(1) have none: "\<And>m. \<not> has_triple m (board g)"
      by (simp add: round_inv_def checkWinner_None_iff)
    have "\<not> (has_triple PlayerX (boardWith (board g) index player)
             \<and> has_triple PlayerO (boardWith (board g) index player))"
    proof
      assume both: "has_triple PlayerX (boardWith (board g) index player)
             \<and> has_triple PlayerO (boardWith (board g) index player)"
      then have "player = Some PlayerX" "player = Some PlayerO"
        using has_triple_boardWith none by blast+
      then show False by simp
    qed
    with placed show ?thesis by (simp add: round_inv_def)
  qed
qed

lemma reachable_round_inv: "reachable g \<Longrightarrow> round_inv g"
  by (induction rule: reachable.induct)
     (simp_all add: round_inv_initial round_inv_reset round_inv_makeMove)

subsection \<open>What a move leaves alone\<close>

lemma makeMove_scores_mono:
  "wins_X (scores g) \<le> wins_X (scores (makeMove index player g))
   \<and> wins_O (scores g) \<le> wins_O (scores (makeMove index player g))
   \<and> draws (scores g) \<le> draws (scores (makeMove index player g))"
  by (cases "checkWinner (boardWith (board g) index player)")
     (auto simp: makeMove_def Let_def incrementScore_def split: option.splits mark.splits)



subsection \<open>Random choice and the free cells\<close>

lemma random_unit: "0 \<le> Rep_math_random u" "Rep_math_random u < 1"
  using Rep_math_random[of u] by simp_all



lemma randomIndex_less: "0 < n \<Longrightarrow> randomIndex u n < n"
proof -
  assume n: "0 < n"
  have "Rep_math_random u * real n < real n"
    using random_unit(2)[of u] n by simp
  moreover have "0 \<le> Rep_math_random u * real n"
    using random_unit(1)[of u] by simp
  ultimately show ?thesis
    unfolding randomIndex_def by (simp add: floor_less_iff nat_less_iff)
qed

text \<open>
  The draw gives index \<open>k\<close> exactly when \<open>Math.random()\<close> lies in the interval from
  \<open>k / n\<close> (included) to \<open>(k + 1) / n\<close> (excluded).
\<close>

lemma randomIndex_iff:
  assumes "0 < n"
  shows "randomIndex u n = k
           \<longleftrightarrow> real k / real n \<le> Rep_math_random u
               \<and> Rep_math_random u < (real k + 1) / real n"
proof -
  have nonneg: "0 \<le> Rep_math_random u * real n"
    using random_unit(1)[of u] by simp
  have "randomIndex u n = k \<longleftrightarrow> \<lfloor>Rep_math_random u * real n\<rfloor> = int k"
    unfolding randomIndex_def using nonneg by (auto simp: nat_eq_iff)
  also have "\<dots> \<longleftrightarrow> real k \<le> Rep_math_random u * real n
                      \<and> Rep_math_random u * real n < real k + 1"
    by (simp add: floor_eq_iff)
  also have "\<dots> \<longleftrightarrow> real k / real n \<le> Rep_math_random u
                      \<and> Rep_math_random u < (real k + 1) / real n"
    using assms by (simp add: pos_divide_le_eq pos_less_divide_eq)
  finally show ?thesis .
qed

lemma randomIndex_onto: "k < n \<Longrightarrow> \<exists>u. randomIndex u n = k"
proof -
  assume k: "k < n"
  then have n: "0 < n" by simp
  have "0 \<le> real k / real n \<and> real k / real n < 1"
    using k by simp
  then have "Rep_math_random (Abs_math_random (real k / real n)) = real k / real n"
    by (simp add: Abs_math_random_inverse)
  then have "randomIndex (Abs_math_random (real k / real n)) n = k"
    using n by (simp add: randomIndex_iff divide_strict_right_mono)
  then show ?thesis ..
qed

lemma random_pick_in: "xs \<noteq> [] \<Longrightarrow> xs ! randomIndex u (length xs) \<in> set xs"
  by (simp add: randomIndex_less)

lemma random_pick_all: "x \<in> set xs \<Longrightarrow> \<exists>u. xs ! randomIndex u (length xs) = x"
proof -
  assume "x \<in> set xs"
  then obtain k where k: "k < length xs" and x: "xs ! k = x"
    by (auto simp: in_set_conv_nth)
  from randomIndex_onto[OF k] obtain u where "randomIndex u (length xs) = k" ..
  with x show ?thesis by auto
qed

lemma pick_range:
  assumes "xs \<noteq> []"
  shows "(\<exists>u'. xs ! randomIndex u' (length xs) = c) \<longleftrightarrow> c \<in> set xs"
  using assms random_pick_in random_pick_all by metis

lemma set_availableMoves: "set (availableMoves b) = {i. js_get b i = Val None}"
  by (auto simp: availableMoves_def js_get_null_iff)

lemma set_emptyCorners:
  "c \<in> set (emptyCorners b) \<longleftrightarrow> c \<in> {0, 2, 6, 8} \<and> js_get b c = Val None"
  unfolding emptyCorners_def set_filter by simp

lemma any_pick:
  assumes "availableMoves b \<noteq> []"
  shows "js_get b (availableMoves b ! randomIndex u (length (availableMoves b))) = Val None"
  using random_pick_in[OF assms, of u] unfolding set_availableMoves by simp

lemma corner_pick:
  assumes "emptyCorners b \<noteq> []"
  shows "emptyCorners b ! randomIndex u (length (emptyCorners b)) \<in> {0, 2, 6, 8}"
    and "js_get b (emptyCorners b ! randomIndex u (length (emptyCorners b))) = Val None"
  using random_pick_in[OF assms, of u] by (simp_all add: set_emptyCorners)

subsection \<open>The selector's rules\<close>

lemma find_ex_iff: "(\<exists>x\<in>set xs. P x) \<longleftrightarrow> find P xs \<noteq> None"
  by (auto simp: find_None_iff)

lemma find_first_ex:
  "\<exists>x\<in>set xs. P x \<Longrightarrow> \<exists>y. find P xs = Some y \<and> y \<in> set xs \<and> P y"
  by (induction xs) auto

lemma find_first:
  assumes "\<exists>x\<in>set xs. P x"
  obtains y where "find P xs = Some y" and "y \<in> set xs" and "P y"
  using find_first_ex[OF assms] by auto

lemma getBestMove_rules:
  "getBestMove u b =
     (if \<exists>m\<in>set (availableMoves b). winsWith b PlayerO m
        then find (winsWith b PlayerO) (availableMoves b)
      else if \<exists>m\<in>set (availableMoves b). winsWith b PlayerX m
        then find (winsWith b PlayerX) (availableMoves b)
      else if js_get b 4 = Val None then Some 4
      else if emptyCorners b \<noteq> []
        then Some (emptyCorners b ! randomIndex u (length (emptyCorners b)))
      else if availableMoves b = [] then None
      else Some (availableMoves b ! randomIndex u (length (availableMoves b))))"
  unfolding find_ex_iff getBestMove_def Let_def
  by (simp split: option.splits)

lemma getBestMove_win:
  assumes "\<exists>m\<in>set (availableMoves b). winsWith b PlayerO m"
  shows "\<exists>move. getBestMove u b = Some move \<and> js_get b move = Val None
           \<and> winsWith b PlayerO move"
proof -
  from assms obtain y where y: "find (winsWith b PlayerO) (availableMoves b) = Some y"
    "y \<in> set (availableMoves b)" "winsWith b PlayerO y"
    by (rule find_first)
  from assms have "getBestMove u b = find (winsWith b PlayerO) (availableMoves b)"
    by (simp only: getBestMove_rules if_True)
  moreover from y(2) have "js_get b y = Val None"
    unfolding set_availableMoves by simp
  ultimately show ?thesis using y by simp
qed

lemma getBestMove_block:
  assumes "\<not> (\<exists>m\<in>set (availableMoves b). winsWith b PlayerO m)"
    and "\<exists>m\<in>set (availableMoves b). winsWith b PlayerX m"
  shows "\<exists>move. getBestMove u b = Some move \<and> js_get b move = Val None
           \<and> winsWith b PlayerX move"
proof -
  from assms(2) obtain y where y: "find (winsWith b PlayerX) (availableMoves b) = Some y"
    "y \<in> set (availableMoves b)" "winsWith b PlayerX y"
    by (rule find_first)
  from assms have "getBestMove u b = find (winsWith b PlayerX) (availableMoves b)"
    by (simp only: getBestMove_rules if_True if_False)
  moreover from y(2) have "js_get b y = Val None"
    unfolding set_availableMoves by simp
  ultimately show ?thesis using y by simp
qed

lemma getBestMove_rest:
  assumes "\<not> (\<exists>m\<in>set (availableMoves b). winsWith b PlayerO m)"
    and "\<not> (\<exists>m\<in>set (availableMoves b). winsWith b PlayerX m)"
  shows "getBestMove u b =
     (if js_get b 4 = Val None then Some 4
      else if emptyCorners b \<noteq> []
        then Some (emptyCorners b ! randomIndex u (length (emptyCorners b)))
      else if availableMoves b = [] then None
      else Some (availableMoves b ! randomIndex u (length (availableMoves b))))"
  using assms by (simp only: getBestMove_rules if_False)

lemma getBestMove_priority:
  assumes ne: "availableMoves b \<noteq> []"
  shows "\<exists>move. getBestMove u b = Some move \<and> js_get b move = Val None
         \<and> (if \<exists>m\<in>set (availableMoves b). winsWith b PlayerO m
               then winsWith b PlayerO move
             else if \<exists>m\<in>set (availableMoves b). winsWith b PlayerX m
               then winsWith b PlayerX move
             else if js_get b 4 = Val None then move = 4
             else if emptyCorners b \<noteq> []
               then move \<in> {0, 2, 6, 8}
                    \<and> move = emptyCorners b ! randomIndex u (length (emptyCorners b))
             else move = availableMoves b ! randomIndex u (length (availableMoves b)))"
proof (cases "\<exists>m\<in>set (availableMoves b). winsWith b PlayerO m")
  case True
  from getBestMove_win[OF True, of u] True show ?thesis by (simp only: if_True)
next
  case noO: False
  show ?thesis
  proof (cases "\<exists>m\<in>set (availableMoves b). winsWith b PlayerX m")
    case True
    from getBestMove_block[OF noO True, of u] noO True show ?thesis
      by (simp only: if_True if_False)
  next
    case noX: False
    note rest = getBestMove_rest[OF noO noX, of u]
    show ?thesis
    proof (cases "js_get b 4 = Val None")
      case True
      with rest have "getBestMove u b = Some 4" by simp
      with noO noX True show ?thesis by (simp only: if_True if_False) simp
    next
      case noC: False
      show ?thesis
      proof (cases "emptyCorners b = []")
        case True
        with rest noC ne have "getBestMove u b
            = Some (availableMoves b ! randomIndex u (length (availableMoves b)))"
          by simp
        with noO noX noC True any_pick[OF ne, of u] show ?thesis
          by (simp only: if_True if_False) simp
      next
        case False
        with rest noC have "getBestMove u b
            = Some (emptyCorners b ! randomIndex u (length (emptyCorners b)))"
          by simp
        with noO noX noC False corner_pick[OF False, of u] show ?thesis
          by (simp only: if_True if_False) simp
      qed
    qed
  qed
qed

lemma getBestMove_Some:
  assumes "availableMoves b \<noteq> []"
  shows "\<exists>move. getBestMove u b = Some move \<and> js_get b move = Val None"
  using getBestMove_priority[OF assms, of u] by blast

lemma getBestMove_choices:
  assumes a: "availableMoves b \<noteq> []
        \<and> \<not> (\<exists>m\<in>set (availableMoves b). winsWith b PlayerO m)
        \<and> \<not> (\<exists>m\<in>set (availableMoves b). winsWith b PlayerX m)
        \<and> js_get b 4 \<noteq> Val None"
  shows "(\<exists>u'. getBestMove u' b = Some c)
           \<longleftrightarrow> (if emptyCorners b \<noteq> [] then c \<in> {0, 2, 6, 8} \<and> js_get b c = Val None
                else js_get b c = Val None)"
proof -
  from a have rest: "getBestMove u' b =
     (if emptyCorners b \<noteq> []
        then Some (emptyCorners b ! randomIndex u' (length (emptyCorners b)))
      else Some (availableMoves b ! randomIndex u' (length (availableMoves b))))" for u'
    by (simp add: getBestMove_rest)
  show ?thesis
  proof (cases "emptyCorners b = []")
    case True
    from a have "(\<exists>u'. availableMoves b ! randomIndex u' (length (availableMoves b)) = c)
            \<longleftrightarrow> js_get b c = Val None" for c
      by (simp add: pick_range set_availableMoves)
    with True show ?thesis by (simp add: rest)
  next
    case False
    then have "(\<exists>u'. emptyCorners b ! randomIndex u' (length (emptyCorners b)) = c)
            \<longleftrightarrow> c \<in> {0, 2, 6, 8} \<and> js_get b c = Val None" for c
      by (simp add: pick_range set_emptyCorners)
    with False show ?thesis by (simp add: rest)
  qed
qed

subsection \<open>The timer's forced move\<close>







subsection \<open>The handlers stay within the reachable states\<close>

lemma not_every_has_move: "\<not> every_not_null b \<Longrightarrow> availableMoves b \<noteq> []"
proof -
  assume "\<not> every_not_null b"
  then obtain cell where "cell \<in> set b" and "cell = Val None"
    by (auto simp: every_not_null_def list_all_iff)
  then obtain i where "i < length b" and "b ! i = Val None"
    by (auto simp: in_set_conv_nth)
  then have "i \<in> set (availableMoves b)"
    by (simp add: availableMoves_def)
  then show ?thesis by auto
qed

lemma makeMove_playing_move:
  assumes "status g = playing \<longrightarrow> availableMoves (board g) \<noteq> []"
  shows "status (makeMove index player g) = playing
           \<longrightarrow> availableMoves (board (makeMove index player g)) \<noteq> []"
  using assms
  by (auto simp: makeMove_def Let_def not_every_has_move split: prod.splits option.splits)

lemma initial_has_move: "availableMoves (board INITIAL_STATE) \<noteq> []"
  by code_simp

lemma playing_has_move:
  "reachable g \<Longrightarrow> status g = playing \<longrightarrow> availableMoves (board g) \<noteq> []"
proof (induction rule: reachable.induct)
  case start
  show ?case using initial_has_move by simp
next
  case (move g index player)
  then show ?case by (simp add: makeMove_playing_move)
next
  case (newGame g)
  show ?case using initial_has_move by (simp add: resetGameState_def)
next
  case (newScores g)
  show ?case using initial_has_move by (simp add: resetScoresState_def)
next
  case (newMode g m)
  show ?case using initial_has_move by (simp add: changeGameModeState_def)
qed

lemma timeUp_reachable: "reachable g \<Longrightarrow> reachable (timeUp u g)"
  by (simp add: timeUp_def Let_def reachable.move)

lemma tick_reachable: "reachable (gameState e) \<Longrightarrow> reachable (gameState (tick u e))"
  by (simp add: tick_def timeUp_reachable)

lemma clickCell_reachable:
  "reachable (gameState e) \<Longrightarrow> reachable (gameState (clickCell index e))"
  by (simp add: clickCell_def Let_def reachable.move)

lemma controller_reachable:
  assumes "reachable (gameState e)"
  shows "reachable (gameState (resetGame e))"
    and "reachable (gameState (resetScores e))"
    and "reachable (gameState (changeGameMode m e))"
    and "reachable (gameState (clickModeButton m e))"
  using assms
  by (simp_all add: resetGame_def resetScores_def changeGameMode_def clickModeButton_def
        reachable.newGame reachable.newScores reachable.newMode)

lemma aiTimeout_reachable:
  "aiTimeout u e = Some e' \<Longrightarrow> reachable (gameState e) \<Longrightarrow> reachable (gameState e')"
  by (auto simp: aiTimeout_def Let_def reachable.move split: if_splits option.splits)

lemma aiTimeout_defined:
  assumes "reachable (gameState e)"
  shows "\<exists>e'. aiTimeout u e = Some e'"
proof (cases "mode (gameState e) = pve \<and> currentPlayer (gameState e) = Some PlayerO
                \<and> status (gameState e) = playing")
  case True
  with assms have "availableMoves (board (gameState e)) \<noteq> []"
    using playing_has_move by blast
  then obtain move where "getBestMove u (board (gameState e)) = Some move"
    using getBestMove_Some by blast
  with True show ?thesis by (simp add: aiTimeout_def)
next
  case False
  then show ?thesis by (auto simp: aiTimeout_def)
qed

section \<open>Properties\<close>




text \<open>
  C2 (as amended). A click on a mode button is rejected, leaving the whole state unchanged,
  exactly when the status is playing and some cell is not \<open>null\<close> (the button is disabled).
  Otherwise, that is on an empty board or after the round has ended in a win or a draw, it
  takes effect: the game state becomes the initial one with the scores kept and the new
  mode, and the timer restarts at 10.
\<close>

theorem C2_mode_change:
  "(status (gameState e) = playing \<and> some_not_null (board (gameState e))
      \<longrightarrow> clickModeButton m e = e)
   \<and> (status (gameState e) \<noteq> playing \<or> \<not> some_not_null (board (gameState e))
      \<longrightarrow> clickModeButton m e = changeGameMode m e
          \<and> gameState (clickModeButton m e)
              = INITIAL_STATE\<lparr>scores := scores (gameState e), mode := m\<rparr>
          \<and> timeLeft (clickModeButton m e) = 10
          \<and> isTimerActive (clickModeButton m e))"
  by (auto simp: clickModeButton_def modeButtonDisabled_def changeGameMode_def
        changeGameModeState_def)

theorem C2_witness:
  "status (gameState (initialEngine\<lparr>gameState := makeMove 0 (Some PlayerX) INITIAL_STATE\<rparr>)) = playing
   \<and> some_not_null (board (gameState (initialEngine\<lparr>gameState := makeMove 0 (Some PlayerX) INITIAL_STATE\<rparr>)))
   \<and> clickModeButton pvp (initialEngine\<lparr>gameState := makeMove 0 (Some PlayerX) INITIAL_STATE\<rparr>)
       = initialEngine\<lparr>gameState := makeMove 0 (Some PlayerX) INITIAL_STATE\<rparr>
   \<and> \<not> some_not_null (board (gameState initialEngine))
   \<and> mode (gameState (clickModeButton pvp initialEngine)) = pvp
   \<and> status (gameState wonEngine) \<noteq> playing
   \<and> mode (gameState (clickModeButton pvp wonEngine)) = pvp"
proof -
  let ?e = "initialEngine\<lparr>gameState := makeMove 0 (Some PlayerX) INITIAL_STATE\<rparr>"
  have h1: "status (gameState ?e) = playing \<and> some_not_null (board (gameState ?e))"
    by code_simp
  have h2: "\<not> some_not_null (board (gameState initialEngine))" by code_simp
  have h3: "status (gameState wonEngine) \<noteq> playing" by code_simp
  from C2_mode_change[of ?e pvp] C2_mode_change[of initialEngine pvp]
       C2_mode_change[of wonEngine pvp] h1 h2 h3
  show ?thesis by (simp add: changeGameMode_def changeGameModeState_def)
qed

text \<open>
  C2 as stated rejects every mode change once a move has been played in the round. After
  the five moves X0 O4 X1 O8 X2 the round is won, the board holds marks, and the click on
  the other mode's button goes through: the mode becomes \<open>pvp\<close> and the board is cleared.
\<close>

theorem C2_counterexample:
  "some_not_null (board (gameState wonEngine))
   \<and> status (gameState wonEngine) = won
   \<and> mode (gameState wonEngine) = pve
   \<and> clickModeButton pvp wonEngine \<noteq> wonEngine
   \<and> mode (gameState (clickModeButton pvp wonEngine)) = pvp
   \<and> board (gameState (clickModeButton pvp wonEngine)) = replicate 9 (Val None)
   \<and> changeGameMode pvp wonEngine \<noteq> wonEngine"
  by code_simp

text \<open>
  C3. If the cell at the index is occupied (holds X or O), or the status is not playing,
  then \<open>makeMove\<close> returns the state it was given, for every index and every player.
\<close>

theorem C3_rejected_move_unchanged:
  "(\<exists>m. js_get (board prev) index = Val (Some m)) \<or> status prev \<noteq> playing
   \<Longrightarrow> makeMove index player prev = prev"
  by (auto simp: makeMove_def truthy_def)

theorem C3_witness:
  "js_get (board (makeMove 0 (Some PlayerX) INITIAL_STATE)) 0 = Val (Some PlayerX)
   \<and> makeMove 0 (Some PlayerO) (makeMove 0 (Some PlayerX) INITIAL_STATE)
       = makeMove 0 (Some PlayerX) INITIAL_STATE
   \<and> status (gameState wonEngine) \<noteq> playing
   \<and> makeMove 5 (Some PlayerO) (gameState wonEngine) = gameState wonEngine"
proof -
  have h1: "js_get (board (makeMove 0 (Some PlayerX) INITIAL_STATE)) 0 = Val (Some PlayerX)"
    by code_simp
  have h2: "status (gameState wonEngine) \<noteq> playing"
    by code_simp
  from C3_rejected_move_unchanged
         [of "makeMove 0 (Some PlayerX) INITIAL_STATE" 0 "Some PlayerO"]
       C3_rejected_move_unchanged [of "gameState wonEngine" 5 "Some PlayerO"] h1 h2
  show ?thesis by simp
qed

text \<open>
  C4. For a state with status playing and an empty cell at the index: if the detector
  reports a winner \<open>w\<close> with cells \<open>cells\<close> on the board with the player's mark written,
  then \<open>makeMove\<close> returns the state with that board, status won, winner \<open>w\<close>, the winning
  cells set to the detected combination (whose three cells all hold \<open>w\<close>), and exactly the
  count of \<open>w\<close> raised by 1; and \<open>w\<close> is the mover's mark whenever the board had no complete
  line before the move. In particular X0 O4 X1 O8 X2 from the initial state ends with
  winner X, winning cells 0 1 2, status won and X's count 1.
\<close>

theorem C4_winning_move:
  "(status prev = playing \<and> js_get (board prev) index = Val None
      \<and> checkWinner (boardWith (board prev) index (Some p)) = (Some w, cells)
    \<longrightarrow> makeMove index (Some p) prev
          = prev\<lparr>board := boardWith (board prev) index (Some p), status := won,
                 winner := Some w, winningCells := cells,
                 scores := incrementScore w (scores prev)\<rparr>
        \<and> (\<exists>a b' c. (a, b', c) \<in> set WINNING_COMBINATIONS \<and> cells = [a, b', c]
              \<and> js_get (boardWith (board prev) index (Some p)) a = Val (Some w)
              \<and> js_get (boardWith (board prev) index (Some p)) b' = Val (Some w)
              \<and> js_get (boardWith (board prev) index (Some p)) c = Val (Some w))
        \<and> wins_X (scores (makeMove index (Some p) prev))
            = wins_X (scores prev) + (if w = PlayerX then 1 else 0)
        \<and> wins_O (scores (makeMove index (Some p) prev))
            = wins_O (scores prev) + (if w = PlayerO then 1 else 0)
        \<and> draws (scores (makeMove index (Some p) prev)) = draws (scores prev)
        \<and> (fst (checkWinner (board prev)) = None \<longrightarrow> w = p))
   \<and> makeMove 2 (Some PlayerX) (makeMove 8 (Some PlayerO) (makeMove 1 (Some PlayerX)
        (makeMove 4 (Some PlayerO) (makeMove 0 (Some PlayerX) INITIAL_STATE))))
      = INITIAL_STATE
          \<lparr>board := [Val (Some PlayerX), Val (Some PlayerX), Val (Some PlayerX),
                     Val None, Val (Some PlayerO), Val None,
                     Val None, Val None, Val (Some PlayerO)],
           status := won, winner := Some PlayerX, winningCells := [0, 1, 2],
           scores := \<lparr>wins_X = 1, wins_O = 0, draws = 0\<rparr>\<rparr>"
proof (intro conjI impI)
  show "makeMove 2 (Some PlayerX) (makeMove 8 (Some PlayerO) (makeMove 1 (Some PlayerX)
        (makeMove 4 (Some PlayerO) (makeMove 0 (Some PlayerX) INITIAL_STATE))))
      = INITIAL_STATE
          \<lparr>board := [Val (Some PlayerX), Val (Some PlayerX), Val (Some PlayerX),
                     Val None, Val (Some PlayerO), Val None,
                     Val None, Val None, Val (Some PlayerO)],
           status := won, winner := Some PlayerX, winningCells := [0, 1, 2],
           scores := \<lparr>wins_X = 1, wins_O = 0, draws = 0\<rparr>\<rparr>"
    by code_simp
next
  assume a: "status prev = playing \<and> js_get (board prev) index = Val None
      \<and> checkWinner (boardWith (board prev) index (Some p)) = (Some w, cells)"
  then have free: "\<not> truthy (js_get (board prev) index)"
    by (simp add: truthy_def)
  from a free show mm: "makeMove index (Some p) prev
          = prev\<lparr>board := boardWith (board prev) index (Some p), status := won,
                 winner := Some w, winningCells := cells,
                 scores := incrementScore w (scores prev)\<rparr>"
    by (simp add: makeMove_win)
  from a show "\<exists>a b' c. (a, b', c) \<in> set WINNING_COMBINATIONS \<and> cells = [a, b', c]
              \<and> js_get (boardWith (board prev) index (Some p)) a = Val (Some w)
              \<and> js_get (boardWith (board prev) index (Some p)) b' = Val (Some w)
              \<and> js_get (boardWith (board prev) index (Some p)) c = Val (Some w)"
    using checkWinnerLoop_Some[of "boardWith (board prev) index (Some p)" WINNING_COMBINATIONS w cells]
    by (simp add: checkWinner_def)
  from mm show "wins_X (scores (makeMove index (Some p) prev))
            = wins_X (scores prev) + (if w = PlayerX then 1 else 0)"
    by (cases w) (simp_all add: incrementScore_def)
  from mm show "wins_O (scores (makeMove index (Some p) prev))
            = wins_O (scores prev) + (if w = PlayerO then 1 else 0)"
    by (cases w) (simp_all add: incrementScore_def)
  from mm show "draws (scores (makeMove index (Some p) prev)) = draws (scores prev)"
    by (cases w) (simp_all add: incrementScore_def)
  assume "fst (checkWinner (board prev)) = None"
  then have "\<not> has_triple w (board prev)"
    by (simp add: checkWinner_None_iff)
  moreover from a have "has_triple w (boardWith (board prev) index (Some p))"
    by (simp add: checkWinner_Some_triple)
  ultimately have "Some p = Some w"
    by (rule has_triple_boardWith[rotated])
  then show "w = p" by simp
qed

theorem C4_witness:
  "status (makeMove 8 (Some PlayerO) (makeMove 1 (Some PlayerX)
        (makeMove 4 (Some PlayerO) (makeMove 0 (Some PlayerX) INITIAL_STATE)))) = playing
   \<and> checkWinner (boardWith (board (makeMove 8 (Some PlayerO) (makeMove 1 (Some PlayerX)
        (makeMove 4 (Some PlayerO) (makeMove 0 (Some PlayerX) INITIAL_STATE))))) 2 (Some PlayerX))
       = (Some PlayerX, [0, 1, 2])
   \<and> status (makeMove 2 (Some PlayerX) (makeMove 8 (Some PlayerO) (makeMove 1 (Some PlayerX)
        (makeMove 4 (Some PlayerO) (makeMove 0 (Some PlayerX) INITIAL_STATE))))) = won
   \<and> wins_X (scores (makeMove 2 (Some PlayerX) (makeMove 8 (Some PlayerO) (makeMove 1 (Some PlayerX)
        (makeMove 4 (Some PlayerO) (makeMove 0 (Some PlayerX) INITIAL_STATE)))))) = 1"
proof -
  let ?g = "makeMove 8 (Some PlayerO) (makeMove 1 (Some PlayerX)
        (makeMove 4 (Some PlayerO) (makeMove 0 (Some PlayerX) INITIAL_STATE)))"
  have h: "status ?g = playing \<and> js_get (board ?g) 2 = Val None
      \<and> checkWinner (boardWith (board ?g) 2 (Some PlayerX)) = (Some PlayerX, [0, 1, 2])"
    by code_simp
  have z: "wins_X (scores ?g) = 0" by code_simp
  from C4_winning_move[of ?g 2 PlayerX PlayerX "[0, 1, 2]"] h z
  show ?thesis by (simp add: incrementScore_def)
qed

text \<open>
  C5. For a state with status playing and an empty cell at the index: if the detector
  finds no winner on the board with the player's mark written, then, when every cell is
  non-null, \<open>makeMove\<close> sets the status to draw and raises the draw count by 1; otherwise
  the status stays playing, the scores are unchanged and the current player becomes the
  mark other than the mover's (a change of turn whenever the mover was the current
  player). On a board of nine cells, "every cell is non-null" says that all nine are
  occupied.
\<close>

theorem C5_no_winner_move:
  "status prev = playing \<and> js_get (board prev) index = Val None
     \<and> fst (checkWinner (boardWith (board prev) index (Some p))) = None
   \<longrightarrow> (every_not_null (boardWith (board prev) index (Some p))
         \<longrightarrow> makeMove index (Some p) prev
               = prev\<lparr>board := boardWith (board prev) index (Some p), status := draw,
                      scores := (scores prev)\<lparr>draws := draws (scores prev) + 1\<rparr>\<rparr>)
       \<and> (\<not> every_not_null (boardWith (board prev) index (Some p))
           \<longrightarrow> makeMove index (Some p) prev
                 = prev\<lparr>board := boardWith (board prev) index (Some p),
                        currentPlayer := Some (if p = PlayerX then PlayerO else PlayerX)\<rparr>
               \<and> status (makeMove index (Some p) prev) = playing
               \<and> scores (makeMove index (Some p) prev) = scores prev
               \<and> (currentPlayer prev = Some p
                    \<longrightarrow> currentPlayer (makeMove index (Some p) prev) \<noteq> currentPlayer prev))
       \<and> (wellFormed (board prev)
           \<longrightarrow> (every_not_null (boardWith (board prev) index (Some p))
                  \<longleftrightarrow> (\<forall>i<9. \<exists>m. boardWith (board prev) index (Some p) ! i = Val (Some m))))"
proof (intro impI)
  assume a: "status prev = playing \<and> js_get (board prev) index = Val None
     \<and> fst (checkWinner (boardWith (board prev) index (Some p))) = None"
  then have free: "\<not> truthy (js_get (board prev) index)"
    by (simp add: truthy_def)
  let ?nb = "boardWith (board prev) index (Some p)"
  have d: "every_not_null ?nb
         \<longrightarrow> makeMove index (Some p) prev
               = prev\<lparr>board := ?nb, status := draw,
                      scores := (scores prev)\<lparr>draws := draws (scores prev) + 1\<rparr>\<rparr>"
    using a free by (simp add: makeMove_draw)
  have c: "\<not> every_not_null ?nb
           \<longrightarrow> makeMove index (Some p) prev
                 = prev\<lparr>board := ?nb,
                        currentPlayer := Some (if p = PlayerX then PlayerO else PlayerX)\<rparr>
               \<and> status (makeMove index (Some p) prev) = playing
               \<and> scores (makeMove index (Some p) prev) = scores prev
               \<and> (currentPlayer prev = Some p
                    \<longrightarrow> currentPlayer (makeMove index (Some p) prev) \<noteq> currentPlayer prev)"
    using a free by (cases p) (simp_all add: makeMove_continue)
  have w: "wellFormed (board prev)
           \<longrightarrow> (every_not_null ?nb \<longleftrightarrow> (\<forall>i<9. \<exists>m. ?nb ! i = Val (Some m)))"
  proof
    assume wf: "wellFormed (board prev)"
    with a have "index < 9" by (simp add: js_get_null_iff wellFormed_def)
    with wf have "wellFormed ?nb" by (rule wellFormed_boardWith)
    then show "every_not_null ?nb \<longleftrightarrow> (\<forall>i<9. \<exists>m. ?nb ! i = Val (Some m))"
      by (rule every_not_null_wellFormed)
  qed
  from d c w show "(every_not_null ?nb
         \<longrightarrow> makeMove index (Some p) prev
               = prev\<lparr>board := ?nb, status := draw,
                      scores := (scores prev)\<lparr>draws := draws (scores prev) + 1\<rparr>\<rparr>)
       \<and> (\<not> every_not_null ?nb
           \<longrightarrow> makeMove index (Some p) prev
                 = prev\<lparr>board := ?nb,
                        currentPlayer := Some (if p = PlayerX then PlayerO else PlayerX)\<rparr>
               \<and> status (makeMove index (Some p) prev) = playing
               \<and> scores (makeMove index (Some p) prev) = scores prev
               \<and> (currentPlayer prev = Some p
                    \<longrightarrow> currentPlayer (makeMove index (Some p) prev) \<noteq> currentPlayer prev))
       \<and> (wellFormed (board prev)
           \<longrightarrow> (every_not_null ?nb \<longleftrightarrow> (\<forall>i<9. \<exists>m. ?nb ! i = Val (Some m))))"
    by blast
qed

theorem C5_witness:
  "status (INITIAL_STATE\<lparr>board := drawBoard8\<rparr>) = playing
   \<and> js_get drawBoard8 8 = Val None
   \<and> fst (checkWinner (boardWith drawBoard8 8 (Some PlayerX))) = None
   \<and> every_not_null (boardWith drawBoard8 8 (Some PlayerX))
   \<and> status (makeMove 8 (Some PlayerX) (INITIAL_STATE\<lparr>board := drawBoard8\<rparr>)) = draw
   \<and> draws (scores (makeMove 8 (Some PlayerX) (INITIAL_STATE\<lparr>board := drawBoard8\<rparr>))) = 1
   \<and> js_get (board INITIAL_STATE) 4 = Val None
   \<and> fst (checkWinner (boardWith (board INITIAL_STATE) 4 (Some PlayerX))) = None
   \<and> \<not> every_not_null (boardWith (board INITIAL_STATE) 4 (Some PlayerX))
   \<and> status (makeMove 4 (Some PlayerX) INITIAL_STATE) = playing
   \<and> currentPlayer (makeMove 4 (Some PlayerX) INITIAL_STATE) = Some PlayerO"
proof -
  let ?g = "INITIAL_STATE\<lparr>board := drawBoard8\<rparr>"
  have h1: "status ?g = playing \<and> js_get (board ?g) 8 = Val None
     \<and> fst (checkWinner (boardWith (board ?g) 8 (Some PlayerX))) = None"
    by code_simp
  have e1: "every_not_null (boardWith (board ?g) 8 (Some PlayerX))" by code_simp
  have z: "draws (scores ?g) = 0" by code_simp
  have h2: "status INITIAL_STATE = playing \<and> js_get (board INITIAL_STATE) 4 = Val None
     \<and> fst (checkWinner (boardWith (board INITIAL_STATE) 4 (Some PlayerX))) = None"
    by code_simp
  have e2: "\<not> every_not_null (boardWith (board INITIAL_STATE) 4 (Some PlayerX))"
    by code_simp
  from C5_no_winner_move[of ?g 8 PlayerX] h1 e1 z
       C5_no_winner_move[of INITIAL_STATE 4 PlayerX] h2 e2
  show ?thesis by simp
qed

text \<open>
  C6. On a board with a free cell, \<open>getBestMove\<close> returns a free index chosen by the first
  rule that applies: a cell where O wins at once (as the detector reports it); else a cell
  where X would win at once; else cell 4 if it is free; else a free corner picked by the
  random draw; else a free cell picked by the random draw. Under the last two rules the
  possible results, over all draws, are exactly the free corners, respectively the free
  cells. On the board X X _ / O O _ / _ _ _ the result is 5, and on X X _ / _ O _ / _ _ _
  it is 2, whatever the draw. On a board without a complete line, "wins at once" is the
  same as "the mark's line is complete after the move".
\<close>

theorem C6_getBestMove:
  "(availableMoves b \<noteq> [] \<longrightarrow>
      (\<exists>move. getBestMove u b = Some move \<and> js_get b move = Val None
         \<and> (if \<exists>m\<in>set (availableMoves b). winsWith b PlayerO m
               then winsWith b PlayerO move
             else if \<exists>m\<in>set (availableMoves b). winsWith b PlayerX m
               then winsWith b PlayerX move
             else if js_get b 4 = Val None then move = 4
             else if emptyCorners b \<noteq> []
               then move \<in> {0, 2, 6, 8}
                    \<and> move = emptyCorners b ! randomIndex u (length (emptyCorners b))
             else move = availableMoves b ! randomIndex u (length (availableMoves b)))))
   \<and> (availableMoves b \<noteq> []
        \<and> \<not> (\<exists>m\<in>set (availableMoves b). winsWith b PlayerO m)
        \<and> \<not> (\<exists>m\<in>set (availableMoves b). winsWith b PlayerX m)
        \<and> js_get b 4 \<noteq> Val None
      \<longrightarrow> (\<forall>c. (\<exists>u'. getBestMove u' b = Some c)
                 \<longleftrightarrow> (if emptyCorners b \<noteq> [] then c \<in> {0, 2, 6, 8} \<and> js_get b c = Val None
                      else js_get b c = Val None)))
   \<and> getBestMove u [Val (Some PlayerX), Val (Some PlayerX), Val None,
                     Val (Some PlayerO), Val (Some PlayerO), Val None,
                     Val None, Val None, Val None] = Some 5
   \<and> getBestMove u [Val (Some PlayerX), Val (Some PlayerX), Val None,
                     Val None, Val (Some PlayerO), Val None,
                     Val None, Val None, Val None] = Some 2
   \<and> (fst (checkWinner b) = None
        \<longrightarrow> (winsWith b p m \<longleftrightarrow> has_triple p (boardWith b m (Some p))))"
proof (intro conjI impI allI)
  assume "availableMoves b \<noteq> []"
  then show "\<exists>move. getBestMove u b = Some move \<and> js_get b move = Val None
         \<and> (if \<exists>m\<in>set (availableMoves b). winsWith b PlayerO m
               then winsWith b PlayerO move
             else if \<exists>m\<in>set (availableMoves b). winsWith b PlayerX m
               then winsWith b PlayerX move
             else if js_get b 4 = Val None then move = 4
             else if emptyCorners b \<noteq> []
               then move \<in> {0, 2, 6, 8}
                    \<and> move = emptyCorners b ! randomIndex u (length (emptyCorners b))
             else move = availableMoves b ! randomIndex u (length (availableMoves b)))"
    by (rule getBestMove_priority)
next
  fix c
  assume "availableMoves b \<noteq> []
        \<and> \<not> (\<exists>m\<in>set (availableMoves b). winsWith b PlayerO m)
        \<and> \<not> (\<exists>m\<in>set (availableMoves b). winsWith b PlayerX m)
        \<and> js_get b 4 \<noteq> Val None"
  then show "(\<exists>u'. getBestMove u' b = Some c)
                 \<longleftrightarrow> (if emptyCorners b \<noteq> [] then c \<in> {0, 2, 6, 8} \<and> js_get b c = Val None
                      else js_get b c = Val None)"
    by (rule getBestMove_choices)
next
  show "getBestMove u [Val (Some PlayerX), Val (Some PlayerX), Val None,
                     Val (Some PlayerO), Val (Some PlayerO), Val None,
                     Val None, Val None, Val None] = Some 5"
    by code_simp
next
  show "getBestMove u [Val (Some PlayerX), Val (Some PlayerX), Val None,
                     Val None, Val (Some PlayerO), Val None,
                     Val None, Val None, Val None] = Some 2"
    by code_simp
next
  assume "fst (checkWinner b) = None"
  then show "winsWith b p m \<longleftrightarrow> has_triple p (boardWith b m (Some p))"
    by (rule winsWith_iff)
qed

theorem C6_witness:
  "availableMoves winNowBoard \<noteq> []
   \<and> (\<exists>m\<in>set (availableMoves winNowBoard). winsWith winNowBoard PlayerO m)
   \<and> getBestMove threeEighths winNowBoard = Some 5
   \<and> winsWith winNowBoard PlayerO 5
   \<and> availableMoves centreTakenBoard \<noteq> []
   \<and> js_get centreTakenBoard 4 \<noteq> Val None
   \<and> emptyCorners centreTakenBoard \<noteq> []
   \<and> (\<exists>u'. getBestMove u' centreTakenBoard = Some 6)"
proof -
  have h1: "availableMoves winNowBoard \<noteq> []" by code_simp
  have h2: "\<exists>m\<in>set (availableMoves winNowBoard). winsWith winNowBoard PlayerO m"
    by code_simp
  have "getBestMove u winNowBoard = Some 5" for u by code_simp
  then have h3: "getBestMove threeEighths winNowBoard = Some 5" .
  have k: "availableMoves centreTakenBoard \<noteq> []
        \<and> \<not> (\<exists>m\<in>set (availableMoves centreTakenBoard). winsWith centreTakenBoard PlayerO m)
        \<and> \<not> (\<exists>m\<in>set (availableMoves centreTakenBoard). winsWith centreTakenBoard PlayerX m)
        \<and> js_get centreTakenBoard 4 \<noteq> Val None"
    by code_simp
  have k2: "emptyCorners centreTakenBoard \<noteq> []" by code_simp
  have k3: "js_get centreTakenBoard 6 = Val None" by code_simp
  from C6_getBestMove[of winNowBoard threeEighths] h1 h2 h3
  have w: "winsWith winNowBoard PlayerO 5" by auto
  from C6_getBestMove[of centreTakenBoard threeEighths] k k2 k3
  have "\<exists>u'. getBestMove u' centreTakenBoard = Some 6" by simp
  with h1 h2 h3 w k k2 show ?thesis by simp
qed



text \<open>
  C8. A new round (\<open>resetGame\<close>) and a mode change (\<open>changeGameMode\<close>, also through the mode
  button) leave the three score counts as they were; \<open>resetScores\<close> sets all three to 0;
  and a move, the only other writer of the scores, never lowers a count.
\<close>

theorem C8_scoreboard_frame:
  "scores (gameState (resetGame e)) = scores (gameState e)
   \<and> scores (gameState (changeGameMode m e)) = scores (gameState e)
   \<and> scores (gameState (clickModeButton m e)) = scores (gameState e)
   \<and> scores (gameState (resetScores e)) = \<lparr>wins_X = 0, wins_O = 0, draws = 0\<rparr>
   \<and> wins_X (scores g) \<le> wins_X (scores (makeMove index player g))
   \<and> wins_O (scores g) \<le> wins_O (scores (makeMove index player g))
   \<and> draws (scores g) \<le> draws (scores (makeMove index player g))"
  using makeMove_scores_mono[of g index player]
  by (simp add: resetGame_def changeGameMode_def clickModeButton_def resetScores_def
        resetGameState_def changeGameModeState_def resetScoresState_def INITIAL_STATE_def)

text \<open>
  C9. On every board the game can reach, by any sequence of moves (clicks, AI moves,
  timer-forced moves) and controller actions from the initial state, complete lines of X
  and of O never exist together: every complete line carries the mark the detector
  reports, and a board still in play has no complete line at all.
\<close>

theorem C9_one_winning_mark:
  "reachable g \<Longrightarrow>
     \<not> (has_triple PlayerX (board g) \<and> has_triple PlayerO (board g))
     \<and> (\<forall>w m. fst (checkWinner (board g)) = Some w \<and> has_triple m (board g) \<longrightarrow> m = w)
     \<and> (status g = playing \<longrightarrow> fst (checkWinner (board g)) = None)"
proof -
  assume "reachable g"
  then have inv: "round_inv g" by (rule reachable_round_inv)
  have "m = w" if "fst (checkWinner (board g)) = Some w" "has_triple m (board g)" for w m
  proof -
    from that(1) have "has_triple w (board g)" by (rule checkWinner_Some_triple)
    with that(2) inv show ?thesis
      by (cases m; cases w) (auto simp: round_inv_def)
  qed
  with inv show ?thesis by (auto simp: round_inv_def)
qed

theorem C9_witness:
  "reachable (gameState wonEngine)
   \<and> has_triple PlayerX (board (gameState wonEngine))
   \<and> \<not> has_triple PlayerO (board (gameState wonEngine))"
proof -
  have r: "reachable (gameState wonEngine)"
    by (simp add: wonEngine_def) (intro reachable.intros)
  have x: "has_triple PlayerX (board (gameState wonEngine))" by code_simp
  from C9_one_winning_mark[OF r] r x show ?thesis by simp
qed

text \<open>
  C10. At session start the game state has an empty board of nine cells, current player X,
  status playing, no winner, no winning cells, all three score counts zero, and mode
  player-vs-AI; the timer shows 10 and is active.
\<close>

theorem C10_initial_state:
  "gameState initialEngine = INITIAL_STATE
   \<and> timeLeft initialEngine = 10
   \<and> isTimerActive initialEngine
   \<and> board INITIAL_STATE = [Val None, Val None, Val None, Val None, Val None,
                          Val None, Val None, Val None, Val None]
   \<and> currentPlayer INITIAL_STATE = Some PlayerX
   \<and> status INITIAL_STATE = playing
   \<and> winner INITIAL_STATE = None
   \<and> winningCells INITIAL_STATE = []
   \<and> scores INITIAL_STATE = \<lparr> wins_X = 0, wins_O = 0, draws = 0 \<rparr>
   \<and> mode INITIAL_STATE = pve"
  by (simp add: initialEngine_def INITIAL_STATE_def numeral_eq_Suc)

end
